theory Spec2Isabelle
  imports Complex_Main "HOL-Library.Sublist"
begin

section \<open>The log plotter: parsing training logs and rendering two charts\<close>

text \<open>
  This theory embeds \<^verbatim>\<open>plotter.py\<close>: \<^verbatim>\<open>parse_log_file\<close>, which scans a text file for
  lines of the form
  \<^verbatim>\<open>step:<int>/<int> val_loss:<float> train_time:<int>ms step_avg:<float>ms\<close>,
  and \<^verbatim>\<open>create_plots\<close>, which draws the parsed series on two charts and saves them.

  Conventions of the model.
  \<^item> A Python \<^verbatim>\<open>str\<close> is a \<^typ>\<open>string\<close>; a character is a code point below 256. In
    that range the class \<^verbatim>\<open>\d\<close> of Python's \<^verbatim>\<open>re\<close> holds exactly the ten ASCII digits.
  \<^item> Exceptions are values of \<open>error\<close>; a function that can raise returns
    \<open>error + 'a\<close>, with \<open>Inl\<close> for the exception.
  \<^item> Floating-point arithmetic is the platform's, not the program's: the float type
    \<open>'f\<close> and its operations are the fields of a \<open>runtime\<close> record, and every theorem
    holds for every runtime.
\<close>

subsection \<open>Exceptions and the runtime\<close>

datatype error = FileNotFoundError | FileExistsError | ValueError | OverflowError

text \<open>
  \<open>int_max_str_digits\<close> is \<^verbatim>\<open>sys.get_int_max_str_digits()\<close> (4300 by default, 0 for no
  limit). \<open>float_of_rat\<close> rounds an exact value to a float, as \<^verbatim>\<open>float(str)\<close> and the
  conversion of an \<^verbatim>\<open>int\<close> operand do. \<open>float_fits n\<close> says that the \<^verbatim>\<open>int\<close> \<open>n\<close> is in
  the range of the float type; outside it the conversion raises \<^verbatim>\<open>OverflowError\<close>.
\<close>

record 'f runtime =
  int_max_str_digits :: nat
  float_of_rat :: "rat \<Rightarrow> 'f"
  float_fits :: "int \<Rightarrow> bool"
  float_mul :: "'f \<Rightarrow> 'f \<Rightarrow> 'f"
  float_div :: "'f \<Rightarrow> 'f \<Rightarrow> 'f"

text \<open>
  A runtime for evaluating the model on concrete inputs: exact rational arithmetic,
  the \<^verbatim>\<open>int\<close> range of IEEE doubles and Python's default digit limit.
\<close>

definition exact_runtime :: "rat runtime" where
  "exact_runtime =
     \<lparr> int_max_str_digits = 4300,
       float_of_rat = (\<lambda>q. q),
       float_fits = (\<lambda>n. \<bar>n\<bar> < 2 ^ 1024 - 2 ^ 970),
       float_mul = (\<lambda>a b. a * b),
       float_div = (\<lambda>a b. a / b) \<rparr>"

subsection \<open>The regular expression\<close>

text \<open>
  The pattern of line 23 uses literals, the classes \<^verbatim>\<open>\d\<close> and \<^verbatim>\<open>[\d.]\<close>, the greedy
  repetition \<^verbatim>\<open>+\<close> and capturing groups around a repetition. \<open>Plus c\<close> is \<^verbatim>\<open>c+\<close> and
  \<open>Group c\<close> is \<^verbatim>\<open>(c+)\<close>.
\<close>

definition is_digit :: "char \<Rightarrow> bool" where
  "is_digit c = (c \<in> set ''0123456789'')"

datatype cls = Digit | DigitOrDot

fun in_cls :: "cls \<Rightarrow> char \<Rightarrow> bool" where
  "in_cls Digit c = is_digit c"
| "in_cls DigitOrDot c = (is_digit c \<or> c = CHR ''.'')"

datatype atom = Lit string | Plus cls | Group cls

definition pattern :: "atom list" where
  "pattern =
     [Lit ''step:'', Group Digit, Lit ''/'', Plus Digit,
      Lit '' val_loss:'', Group DigitOrDot,
      Lit '' train_time:'', Group Digit,
      Lit ''ms step_avg:'', Group DigitOrDot, Lit ''ms'']"

text \<open>
  \<^verbatim>\<open>re.match\<close> tries the pattern at the start of the string only and backtracks: a
  greedy repetition first takes the longest run of its class and gives characters
  back, one at a time and never below one, until the rest of the pattern matches.
  The result is the list of captured groups.
\<close>

fun first_some :: "'a option list \<Rightarrow> 'a option" where
  "first_some [] = None"
| "first_some (None # xs) = first_some xs"
| "first_some (Some x # xs) = Some x"

definition run_lengths :: "cls \<Rightarrow> string \<Rightarrow> nat list" where
  "run_lengths c s = rev [1..<Suc (length (takeWhile (in_cls c) s))]"

fun match_atoms :: "atom list \<Rightarrow> string \<Rightarrow> string list option" where
  "match_atoms [] s = Some []"
| "match_atoms (Lit l # as) s =
     (if prefix l s then match_atoms as (drop (length l) s) else None)"
| "match_atoms (Plus c # as) s =
     first_some (map (\<lambda>n. match_atoms as (drop n s)) (run_lengths c s))"
| "match_atoms (Group c # as) s =
     first_some (map (\<lambda>n. map_option (Cons (take n s)) (match_atoms as (drop n s)))
                     (run_lengths c s))"

text \<open>
  The match object of the pattern has four groups; \<^verbatim>\<open>match.group(1)\<close> to
  \<^verbatim>\<open>match.group(4)\<close> are the components of the tuple.
\<close>

definition re_match :: "string \<Rightarrow> (string \<times> string \<times> string \<times> string) option" where
  "re_match line =
     (case match_atoms pattern line of
        Some [g1, g2, g3, g4] \<Rightarrow> Some (g1, g2, g3, g4)
      | _ \<Rightarrow> None)"

subsection \<open>Conversions: \<^verbatim>\<open>int\<close>, \<^verbatim>\<open>float\<close> and \<^verbatim>\<open>float * int\<close>\<close>

definition digit_val :: "char \<Rightarrow> int" where
  "digit_val c = int (of_char c) - 48"

definition digits_val :: "string \<Rightarrow> int" where
  "digits_val s = foldl (\<lambda>a c. 10 * a + digit_val c) 0 s"

text \<open>
  \<^verbatim>\<open>int(s)\<close> on a string of decimal digits: the string must not be empty, and a string
  longer than the digit limit is refused with \<^verbatim>\<open>ValueError\<close>.
\<close>

definition py_int :: "'f runtime \<Rightarrow> string \<Rightarrow> error + int" where
  "py_int R s =
     (if s \<noteq> [] \<and> list_all is_digit s
      then if 0 < int_max_str_digits R \<and> int_max_str_digits R < length s
           then Inl ValueError
           else Inr (digits_val s)
      else Inl ValueError)"

text \<open>
  \<^verbatim>\<open>float(s)\<close> on a string of digits and dots, the only strings the pattern hands to
  it: Python accepts \<^verbatim>\<open>12\<close>, \<^verbatim>\<open>12.\<close>, \<^verbatim>\<open>.5\<close> and \<^verbatim>\<open>12.5\<close>, that is an integer part, then
  at most one dot and a fractional part, with a digit somewhere; anything else raises
  \<^verbatim>\<open>ValueError\<close>. The value is the decimal value, rounded by the runtime.
\<close>

definition py_float :: "'f runtime \<Rightarrow> string \<Rightarrow> error + 'f" where
  "py_float R s =
     (let ip = takeWhile is_digit s; rest = dropWhile is_digit s
      in case rest of
           [] \<Rightarrow> if ip = [] then Inl ValueError
                 else Inr (float_of_rat R (of_int (digits_val ip)))
         | c # fp \<Rightarrow>
             if c = CHR ''.'' \<and> list_all is_digit fp \<and> ip @ fp \<noteq> []
             then Inr (float_of_rat R (of_int (digits_val (ip @ fp)) / 10 ^ length fp))
             else Inl ValueError)"

text \<open>
  \<^verbatim>\<open>avg_time * step\<close> with a float and an \<^verbatim>\<open>int\<close>: the \<^verbatim>\<open>int\<close> is converted to a float
  first, which raises \<^verbatim>\<open>OverflowError\<close> when it is out of range.
\<close>

definition float_mul_int :: "'f runtime \<Rightarrow> 'f \<Rightarrow> int \<Rightarrow> error + 'f" where
  "float_mul_int R x n =
     (if float_fits R n then Inr (float_mul R x (float_of_rat R (of_int n)))
      else Inl OverflowError)"

subsection \<open>Files, directories and figures\<close>

text \<open>
  A chart is the record of what \<^verbatim>\<open>matplotlib.pyplot\<close> was asked to draw on the current
  figure. The x data of a line is a list of \<^verbatim>\<open>int\<close> (steps) or of floats (hours).
  Keyword arguments that only style the text of a label are left out.
\<close>

datatype 'f xdata = IntData "int list" | FloatData "'f list"


datatype 'f artist =
    Line2D "'f xdata" "'f list" string nat
  | AxHLine 'f string string "nat option" string

record 'f figure =
  figsize :: "nat \<times> nat"
  artists :: "'f artist list"
  xlabel :: string
  ylabel :: string
  title :: string
  grid :: bool
  legend :: bool
  tight_layout :: bool

text \<open>
  The world outside the program: the text files that can be read, by path; the
  directories that exist; the image files, by path, each holding the figure that was
  saved to it. The model covers the runs in which the platform carries out the
  requests to create a directory and to write an image: an empty or unusable path,
  missing permissions or a full disk are outside it. The failures it has are those of
  reading and converting the input: a missing file, a captured text that is not a
  number, a step outside the float range.
\<close>

record 'f world =
  logs :: "string \<rightharpoonup> string"
  dirs :: "string set"
  images :: "string \<rightharpoonup> 'f figure"








subsection \<open>\<^verbatim>\<open>parse_log_file\<close>\<close>

text \<open>
  The file is opened in text mode with universal newlines: \<^verbatim>\<open>\r\n\<close> and \<^verbatim>\<open>\r\<close> are read
  as \<^verbatim>\<open>\n\<close>, and iterating over the file yields the lines, each with its \<^verbatim>\<open>\n\<close> (the
  last line may lack it).
\<close>

fun universal_newlines :: "string \<Rightarrow> string" where
  "universal_newlines [] = []"
| "universal_newlines [c] = (if c = CHR 0x0D then [CHR 0x0A] else [c])"
| "universal_newlines (c # d # cs) =
     (if c = CHR 0x0D
      then if d = CHR 0x0A then CHR 0x0A # universal_newlines cs
           else CHR 0x0A # universal_newlines (d # cs)
      else c # universal_newlines (d # cs))"

fun file_lines :: "string \<Rightarrow> string list" where
  "file_lines [] = []"
| "file_lines (c # cs) =
     (if c = CHR 0x0A then [c] # file_lines cs
      else case file_lines cs of
             [] \<Rightarrow> [[c]]
           | l # ls \<Rightarrow> (c # l) # ls)"

text \<open>
  The loop of lines 21 to 31, with the three lists as accumulator. A line that does
  not match is skipped; on a match the three conversions and the product are
  evaluated in the order of the source, and the first exception ends the loop.
\<close>

fun parse_lines ::
  "'f runtime \<Rightarrow> string list \<Rightarrow> int list \<times> 'f list \<times> 'f list
     \<Rightarrow> error + (int list \<times> 'f list \<times> 'f list)" where
  "parse_lines R [] acc = Inr acc"
| "parse_lines R (line # rest) (steps, losses, cum_times) =
     (case re_match line of
        None \<Rightarrow> parse_lines R rest (steps, losses, cum_times)
      | Some (g1, g2, g3, g4) \<Rightarrow>
          (case py_int R g1 of Inl e \<Rightarrow> Inl e | Inr step \<Rightarrow>
          (case py_float R g2 of Inl e \<Rightarrow> Inl e | Inr loss \<Rightarrow>
          (case py_float R g4 of Inl e \<Rightarrow> Inl e | Inr avg_time \<Rightarrow>
          (case float_mul_int R avg_time step of Inl e \<Rightarrow> Inl e | Inr t \<Rightarrow>
             parse_lines R rest (steps @ [step], losses @ [loss], cum_times @ [t]))))))"

definition parse_log_file ::
  "'f runtime \<Rightarrow> 'f world \<Rightarrow> string \<Rightarrow> error + (int list \<times> 'f list \<times> 'f list)" where
  "parse_log_file R w filename =
     (case logs w filename of
        None \<Rightarrow> Inl FileNotFoundError
      | Some text \<Rightarrow> parse_lines R (file_lines (universal_newlines text)) ([], [], []))"

subsection \<open>\<^verbatim>\<open>create_plots\<close>\<close>







subsection \<open>Notions used to state the properties\<close>

text \<open>
  A field of the pattern is a non-empty run of characters of one class. A captured
  float field is a float literal when \<^verbatim>\<open>float\<close> accepts it: at most one dot and at
  least one digit; its value is then \<open>decimal_value\<close>. A captured step is within the
  digit limit when \<^verbatim>\<open>int\<close> accepts it.
\<close>

definition line_matches :: "string \<Rightarrow> bool" where
  "line_matches line = (re_match line \<noteq> None)"

definition is_field :: "cls \<Rightarrow> string \<Rightarrow> bool" where
  "is_field c s = (s \<noteq> [] \<and> list_all (in_cls c) s)"

definition fields_ok :: "string \<Rightarrow> string \<Rightarrow> string \<Rightarrow> string \<Rightarrow> string \<Rightarrow> bool" where
  "fields_ok step tot val_loss train_time step_avg =
     (is_field Digit step \<and> is_field Digit tot \<and> is_field DigitOrDot val_loss \<and>
      is_field Digit train_time \<and> is_field DigitOrDot step_avg)"

definition float_literal :: "string \<Rightarrow> bool" where
  "float_literal s = (count_list s CHR ''.'' \<le> 1 \<and> list_ex is_digit s)"

definition decimal_value :: "string \<Rightarrow> rat" where
  "decimal_value s =
     of_int (digits_val (takeWhile is_digit s @ tl (dropWhile is_digit s)))
       / 10 ^ length (tl (dropWhile is_digit s))"

definition int_digits_ok :: "'f runtime \<Rightarrow> string \<Rightarrow> bool" where
  "int_digits_ok R s = (int_max_str_digits R = 0 \<or> length s \<le> int_max_str_digits R)"

text \<open>
  The captured fields of a matching line convert: both float fields are float
  literals, the step is within the digit limit and in the range of the float type.
\<close>

definition numeric_ok :: "'f runtime \<Rightarrow> string \<times> string \<times> string \<times> string \<Rightarrow> bool" where
  "numeric_ok R g =
     (case g of (g1, g2, g3, g4) \<Rightarrow>
        int_digits_ok R g1 \<and> float_literal g2 \<and> float_literal g4 \<and>
        float_fits R (digits_val g1))"

text \<open>
  What the loop appends for a matching line whose fields convert: the step, the
  loss, and the product of the average step time and the step.
\<close>

definition entry :: "'f runtime \<Rightarrow> string \<times> string \<times> string \<times> string \<Rightarrow> int \<times> 'f \<times> 'f" where
  "entry R g =
     (case g of (g1, g2, g3, g4) \<Rightarrow>
        (digits_val g1,
         float_of_rat R (decimal_value g2),
         float_mul R (float_of_rat R (decimal_value g4))
           (float_of_rat R (of_int (digits_val g1)))))"

text \<open>
  Modelled from the spec: the writer of the log lines is not in the source. The spec
  gives the line format
  \<^verbatim>\<open>step:<N>/<TOTAL> val_loss:<FLOAT> train_time:<N>ms step_avg:<FLOAT>ms\<close>;
  \<open>format_line\<close> writes a line in that format from the texts of its five fields.
\<close>

definition format_line :: "string \<Rightarrow> string \<Rightarrow> string \<Rightarrow> string \<Rightarrow> string \<Rightarrow> string" where
  "format_line step tot val_loss train_time step_avg =
     ''step:'' @ step @ ''/'' @ tot @ '' val_loss:'' @ val_loss @
     '' train_time:'' @ train_time @ ''ms step_avg:'' @ step_avg @ ''ms''"


definition series :: "'f runtime \<Rightarrow> 'f world \<Rightarrow> string \<Rightarrow> int list \<times> 'f list \<times> 'f list" where
  "series R w filename =
     (case parse_log_file R w filename of Inl e \<Rightarrow> ([], [], []) | Inr r \<Rightarrow> r)"

definition steps_line :: "'f runtime \<Rightarrow> 'f world \<Rightarrow> string \<times> string \<Rightarrow> 'f artist" where
  "steps_line R w p =
     (case p of (log_file, label) \<Rightarrow>
        (case series R w log_file of (steps, losses, cum_times) \<Rightarrow>
           Line2D (IntData steps) losses label 2))"

definition time_line :: "'f runtime \<Rightarrow> 'f world \<Rightarrow> string \<times> string \<Rightarrow> 'f artist" where
  "time_line R w p =
     (case p of (log_file, label) \<Rightarrow>
        (case series R w log_file of (steps, losses, cum_times) \<Rightarrow>
           Line2D (FloatData (map (\<lambda>t. float_div R t (float_of_rat R 3600000)) cum_times))
             losses label 2))"

fun is_line2d :: "'f artist \<Rightarrow> bool" where
  "is_line2d (Line2D x y label lw) = True"
| "is_line2d (AxHLine y color linestyle lw label) = False"







subsection \<open>Sample inputs\<close>

text \<open>Small logs and a world holding them, for evaluating the model.\<close>

definition sample_line :: string where
  "sample_line = ''step:100/1000 val_loss:3.45 train_time:5000ms step_avg:50.0ms''"

definition malformed_line :: string where
  "malformed_line = ''step:1/2 val_loss:1.2.3 train_time:5ms step_avg:1.0ms''"

text \<open>
  Two matching lines whose step does not convert: a step of 310 digits, beyond the
  range of a double, and a step of 4301 digits, beyond the default digit limit.
\<close>

definition overflow_line :: string where
  "overflow_line =
     ''step:1'' @ replicate 309 (CHR ''0'') @ ''/1 val_loss:1.5 train_time:1ms step_avg:2.0ms''"

definition long_step_line :: string where
  "long_step_line =
     ''step:'' @ replicate 4301 (CHR ''7'') @ ''/1 val_loss:1.5 train_time:1ms step_avg:2.0ms''"

definition sample_log :: string where
  "sample_log =
     ''# training log\<newline>'' @
     ''step:100/1000 val_loss:3.45 train_time:5000ms step_avg:50.0ms\<newline>'' @
     ''\<newline>'' @
     ''step:200/1000 val_loss:3.30 train_time:10000ms step_avg:50.5ms''"

definition malformed_log :: string where
  "malformed_log = ''step:1/2 val_loss:1.2.3 train_time:5ms step_avg:1.0ms\<newline>''"

definition longer_log :: string where
  "longer_log =
     ''step:0/1000 val_loss:10.9 train_time:0ms step_avg:0.0ms\<newline>'' @
     ''step:125/1000 val_loss:4.1 train_time:6250ms step_avg:50.0ms\<newline>'' @
     ''step:250/1000 val_loss:3.27 train_time:12500ms step_avg:50.0ms\<newline>''"

definition sample_world :: "rat world" where
  "sample_world =
     \<lparr> logs = [''a.txt'' \<mapsto> sample_log, ''b.txt'' \<mapsto> longer_log,
               ''bad.txt'' \<mapsto> malformed_log,
               ''notes.txt'' \<mapsto> ''# no records here\<newline>\<newline>step:1 val_loss:2\<newline>'',
               ''empty.txt'' \<mapsto> ''''],
       dirs = {}, images = Map.empty \<rparr>"




section \<open>The pattern matcher\<close>

text \<open>
  Every repetition of the pattern is followed by a literal whose first character is
  outside the repeated class, so backtracking never finds a match that the longest
  run does not give.
\<close>

lemma first_some_all_None: "(\<And>x. x \<in> set xs \<Longrightarrow> f x = None) \<Longrightarrow> first_some (map f xs) = None"
  by (induction xs) auto

lemma first_some_greedy:
  assumes "\<And>n. n < k \<Longrightarrow> f n = None"
  shows "first_some (map f (rev [1..<Suc k])) = (if k = 0 then None else f k)"
proof (cases "k = 0")
  case True
  then show ?thesis by simp
next
  case False
  then have "rev [1..<Suc k] = k # rev [1..<k]" by auto
  moreover have "first_some (map f (rev [1..<k])) = None"
    by (rule first_some_all_None) (use assms in auto)
  ultimately show ?thesis using False by (cases "f k") simp_all
qed

lemma drop_inside_run:
  assumes "n < length (takeWhile P s)"
  shows "\<exists>y ys. drop n s = y # ys \<and> P y"
proof -
  have "drop n (takeWhile P s @ dropWhile P s) = drop n (takeWhile P s) @ dropWhile P s"
    using assms by (simp del: takeWhile_dropWhile_id)
  then have eq: "drop n s = drop n (takeWhile P s) @ dropWhile P s"
    by simp
  obtain y ys where d: "drop n (takeWhile P s) = y # ys"
    using assms by (cases "drop n (takeWhile P s)") auto
  have "y \<in> set (drop n (takeWhile P s))"
    by (simp add: d)
  then have "y \<in> set (takeWhile P s)"
    by (rule in_set_dropD)
  then have "P y" by (auto dest: set_takeWhileD)
  with eq d show ?thesis by simp
qed

lemma lit_fails_inside_run:
  assumes "\<not> in_cls c x" "n < length (takeWhile (in_cls c) s)"
  shows "match_atoms (Lit (x # l) # as) (drop n s) = None"
proof -
  obtain y ys where "drop n s = y # ys" "in_cls c y"
    using drop_inside_run[OF assms(2)] by blast
  with assms(1) show ?thesis by auto
qed

lemma take_run: "take (length (takeWhile P s)) s = takeWhile P s"
proof -
  have "take (length (takeWhile P s)) (takeWhile P s @ dropWhile P s) = takeWhile P s"
    by (simp del: takeWhile_dropWhile_id)
  then show ?thesis by simp
qed

lemma drop_run: "drop (length (takeWhile P s)) s = dropWhile P s"
proof -
  have "drop (length (takeWhile P s)) (takeWhile P s @ dropWhile P s) = dropWhile P s"
    by (simp del: takeWhile_dropWhile_id)
  then show ?thesis by simp
qed

lemma group_lit:
  assumes "\<not> in_cls c x"
  shows "match_atoms (Group c # Lit (x # l) # as) s =
     (if takeWhile (in_cls c) s \<noteq> []
      then map_option (Cons (takeWhile (in_cls c) s))
             (match_atoms (Lit (x # l) # as) (dropWhile (in_cls c) s))
      else None)"
proof -
  let ?k = "length (takeWhile (in_cls c) s)"
  let ?f = "\<lambda>n. map_option (Cons (take n s)) (match_atoms (Lit (x # l) # as) (drop n s))"
  have "match_atoms (Group c # Lit (x # l) # as) s = first_some (map ?f (rev [1..<Suc ?k]))"
    by (simp only: match_atoms.simps run_lengths_def)
  also have "\<dots> = (if ?k = 0 then None else ?f ?k)"
    by (rule first_some_greedy) (simp only: lit_fails_inside_run[OF assms] option.map)
  finally show ?thesis by (simp only: take_run drop_run length_0_conv if_not_P if_P split: if_splits) auto
qed

lemma plus_lit:
  assumes "\<not> in_cls c x"
  shows "match_atoms (Plus c # Lit (x # l) # as) s =
     (if takeWhile (in_cls c) s \<noteq> []
      then match_atoms (Lit (x # l) # as) (dropWhile (in_cls c) s)
      else None)"
proof -
  let ?k = "length (takeWhile (in_cls c) s)"
  let ?f = "\<lambda>n. match_atoms (Lit (x # l) # as) (drop n s)"
  have "match_atoms (Plus c # Lit (x # l) # as) s = first_some (map ?f (rev [1..<Suc ?k]))"
    by (simp only: match_atoms.simps run_lengths_def)
  also have "\<dots> = (if ?k = 0 then None else ?f ?k)"
    by (rule first_some_greedy) (simp only: lit_fails_inside_run[OF assms])
  finally show ?thesis by (simp only: take_run drop_run length_0_conv if_not_P if_P split: if_splits) auto
qed

lemma lit_step: "match_atoms (Lit l # as) (l @ r) = match_atoms as r"
  by simp

lemma lit_SomeD:
  assumes "match_atoms (Lit l # as) s = Some gs"
  shows "\<exists>r. s = l @ r \<and> match_atoms as r = Some gs"
proof -
  from assms have p: "prefix l s" and m: "match_atoms as (drop (length l) s) = Some gs"
    by (auto split: if_splits)
  from p obtain r where "s = l @ r" by (auto elim: prefixE)
  with m show ?thesis by auto
qed

lemma run_of_field:
  assumes "is_field c d" "\<not> in_cls c x"
  shows "takeWhile (in_cls c) (d @ x # r) = d" "dropWhile (in_cls c) (d @ x # r) = x # r"
  using assms by (auto simp: is_field_def list_all_iff takeWhile_append2 dropWhile_append2)

lemma group_step:
  assumes "\<not> in_cls c x" "is_field c d"
  shows "match_atoms (Group c # Lit (x # l) # as) (d @ x # r) =
         map_option (Cons d) (match_atoms (Lit (x # l) # as) (x # r))"
  using assms by (simp only: group_lit[OF assms(1)] run_of_field[OF assms(2,1)]) (simp add: is_field_def)

lemma plus_step:
  assumes "\<not> in_cls c x" "is_field c d"
  shows "match_atoms (Plus c # Lit (x # l) # as) (d @ x # r) =
         match_atoms (Lit (x # l) # as) (x # r)"
  using assms by (simp only: plus_lit[OF assms(1)] run_of_field[OF assms(2,1)]) (simp add: is_field_def)

lemma group_SomeD:
  assumes "\<not> in_cls c x" "match_atoms (Group c # Lit (x # l) # as) s = Some gs"
  shows "\<exists>d r gs'. s = d @ r \<and> is_field c d \<and> gs = d # gs' \<and>
           match_atoms (Lit (x # l) # as) r = Some gs'"
proof -
  let ?d = "takeWhile (in_cls c) s" and ?r = "dropWhile (in_cls c) s"
  from assms(2) have ne: "?d \<noteq> []"
    and m: "map_option (Cons ?d) (match_atoms (Lit (x # l) # as) ?r) = Some gs"
    unfolding group_lit[OF assms(1)] by (auto split: if_splits)
  from m obtain gs' where "match_atoms (Lit (x # l) # as) ?r = Some gs'" "gs = ?d # gs'"
    by auto
  moreover have "is_field c ?d"
    using ne by (auto simp: is_field_def list_all_iff dest: set_takeWhileD)
  moreover have "s = ?d @ ?r" by simp
  ultimately show ?thesis by blast
qed

lemma plus_SomeD:
  assumes "\<not> in_cls c x" "match_atoms (Plus c # Lit (x # l) # as) s = Some gs"
  shows "\<exists>d r. s = d @ r \<and> is_field c d \<and> match_atoms (Lit (x # l) # as) r = Some gs"
proof -
  let ?d = "takeWhile (in_cls c) s" and ?r = "dropWhile (in_cls c) s"
  from assms(2) have ne: "?d \<noteq> []"
    and m: "match_atoms (Lit (x # l) # as) ?r = Some gs"
    unfolding plus_lit[OF assms(1)] by (auto split: if_splits)
  moreover have "is_field c ?d"
    using ne by (auto simp: is_field_def list_all_iff dest: set_takeWhileD)
  moreover have "s = ?d @ ?r" by simp
  ultimately show ?thesis by blast
qed

lemma not_in_cls [simp]:
  "\<not> in_cls c CHR ''/''" "\<not> in_cls c CHR '' ''" "\<not> in_cls c CHR ''m''"
  by (cases c; simp add: is_digit_def)+

lemma match_pattern_format:
  assumes "fields_ok d1 d2 f1 d3 f2"
  shows "match_atoms pattern (format_line d1 d2 f1 d3 f2 @ rest) = Some [d1, f1, d3, f2]"
proof -
  from assms have f: "is_field Digit d1" "is_field Digit d2" "is_field DigitOrDot f1"
    "is_field Digit d3" "is_field DigitOrDot f2"
    by (simp_all add: fields_ok_def)
  have "match_atoms [Lit ''ms''] (''ms'' @ rest) = Some []"
    by simp
  then have "match_atoms [Group DigitOrDot, Lit ''ms''] (f2 @ ''ms'' @ rest) = Some [f2]"
    using group_step[of DigitOrDot "CHR ''m''" f2 "''s''" "[]" "''s'' @ rest"] f by simp
  then have "match_atoms [Lit ''ms step_avg:'', Group DigitOrDot, Lit ''ms'']
      (''ms step_avg:'' @ f2 @ ''ms'' @ rest) = Some [f2]"
    by (simp only: lit_step)
  then have "match_atoms [Group Digit, Lit ''ms step_avg:'', Group DigitOrDot, Lit ''ms'']
      (d3 @ ''ms step_avg:'' @ f2 @ ''ms'' @ rest) = Some [d3, f2]"
    using group_step[of Digit "CHR ''m''" d3 "''s step_avg:''" _ "''s step_avg:'' @ f2 @ ''ms'' @ rest"] f
    by simp
  then have "match_atoms [Lit '' train_time:'', Group Digit, Lit ''ms step_avg:'', Group DigitOrDot, Lit ''ms'']
      ('' train_time:'' @ d3 @ ''ms step_avg:'' @ f2 @ ''ms'' @ rest) = Some [d3, f2]"
    by (simp only: lit_step)
  then have "match_atoms [Group DigitOrDot, Lit '' train_time:'', Group Digit, Lit ''ms step_avg:'', Group DigitOrDot, Lit ''ms'']
      (f1 @ '' train_time:'' @ d3 @ ''ms step_avg:'' @ f2 @ ''ms'' @ rest) = Some [f1, d3, f2]"
    using group_step[of DigitOrDot "CHR '' ''" f1 "''train_time:''" _ "''train_time:'' @ d3 @ ''ms step_avg:'' @ f2 @ ''ms'' @ rest"] f
    by simp
  then have "match_atoms [Lit '' val_loss:'', Group DigitOrDot, Lit '' train_time:'', Group Digit, Lit ''ms step_avg:'', Group DigitOrDot, Lit ''ms'']
      ('' val_loss:'' @ f1 @ '' train_time:'' @ d3 @ ''ms step_avg:'' @ f2 @ ''ms'' @ rest) = Some [f1, d3, f2]"
    by (simp only: lit_step)
  then have "match_atoms [Plus Digit, Lit '' val_loss:'', Group DigitOrDot, Lit '' train_time:'', Group Digit, Lit ''ms step_avg:'', Group DigitOrDot, Lit ''ms'']
      (d2 @ '' val_loss:'' @ f1 @ '' train_time:'' @ d3 @ ''ms step_avg:'' @ f2 @ ''ms'' @ rest) = Some [f1, d3, f2]"
    using plus_step[of Digit "CHR '' ''" d2 "''val_loss:''" _ "''val_loss:'' @ f1 @ '' train_time:'' @ d3 @ ''ms step_avg:'' @ f2 @ ''ms'' @ rest"] f
    by simp
  then have "match_atoms [Lit ''/'', Plus Digit, Lit '' val_loss:'', Group DigitOrDot, Lit '' train_time:'', Group Digit, Lit ''ms step_avg:'', Group DigitOrDot, Lit ''ms'']
      (''/'' @ d2 @ '' val_loss:'' @ f1 @ '' train_time:'' @ d3 @ ''ms step_avg:'' @ f2 @ ''ms'' @ rest) = Some [f1, d3, f2]"
    by (simp only: lit_step)
  then have "match_atoms [Group Digit, Lit ''/'', Plus Digit, Lit '' val_loss:'', Group DigitOrDot, Lit '' train_time:'', Group Digit, Lit ''ms step_avg:'', Group DigitOrDot, Lit ''ms'']
      (d1 @ ''/'' @ d2 @ '' val_loss:'' @ f1 @ '' train_time:'' @ d3 @ ''ms step_avg:'' @ f2 @ ''ms'' @ rest) = Some [d1, f1, d3, f2]"
    using group_step[of Digit "CHR ''/''" d1 "[]" _ "d2 @ '' val_loss:'' @ f1 @ '' train_time:'' @ d3 @ ''ms step_avg:'' @ f2 @ ''ms'' @ rest"] f
    by simp
  then have "match_atoms pattern
      (''step:'' @ d1 @ ''/'' @ d2 @ '' val_loss:'' @ f1 @ '' train_time:'' @ d3 @ ''ms step_avg:'' @ f2 @ ''ms'' @ rest) = Some [d1, f1, d3, f2]"
    unfolding pattern_def by (simp only: lit_step)
  then show ?thesis by (simp add: format_line_def)
qed

lemma match_pattern_SomeD:
  assumes "match_atoms pattern line = Some gs"
  shows "\<exists>d1 d2 f1 d3 f2 rest. fields_ok d1 d2 f1 d3 f2 \<and>
           line = format_line d1 d2 f1 d3 f2 @ rest \<and> gs = [d1, f1, d3, f2]"
proof -
  from assms obtain r0 where l0: "line = ''step:'' @ r0"
    and m0: "match_atoms [Group Digit, Lit ''/'', Plus Digit, Lit '' val_loss:'',
               Group DigitOrDot, Lit '' train_time:'', Group Digit, Lit ''ms step_avg:'',
               Group DigitOrDot, Lit ''ms''] r0 = Some gs"
    unfolding pattern_def by (blast dest: lit_SomeD)
  from group_SomeD[OF _ m0] obtain d1 r1 gs1 where l1: "r0 = d1 @ r1" and f1: "is_field Digit d1"
    and g1: "gs = d1 # gs1"
    and m1: "match_atoms [Lit ''/'', Plus Digit, Lit '' val_loss:'',
               Group DigitOrDot, Lit '' train_time:'', Group Digit, Lit ''ms step_avg:'',
               Group DigitOrDot, Lit ''ms''] r1 = Some gs1"
    by (metis not_in_cls(1))
  from lit_SomeD[OF m1] obtain r2 where l2: "r1 = ''/'' @ r2"
    and m2: "match_atoms [Plus Digit, Lit '' val_loss:'',
               Group DigitOrDot, Lit '' train_time:'', Group Digit, Lit ''ms step_avg:'',
               Group DigitOrDot, Lit ''ms''] r2 = Some gs1"
    by blast
  from plus_SomeD[OF _ m2] obtain d2 r3 where l3: "r2 = d2 @ r3" and f2: "is_field Digit d2"
    and m3: "match_atoms [Lit '' val_loss:'',
               Group DigitOrDot, Lit '' train_time:'', Group Digit, Lit ''ms step_avg:'',
               Group DigitOrDot, Lit ''ms''] r3 = Some gs1"
    by (metis not_in_cls(2))
  from lit_SomeD[OF m3] obtain r4 where l4: "r3 = '' val_loss:'' @ r4"
    and m4: "match_atoms [Group DigitOrDot, Lit '' train_time:'', Group Digit,
               Lit ''ms step_avg:'', Group DigitOrDot, Lit ''ms''] r4 = Some gs1"
    by blast
  from group_SomeD[OF _ m4] obtain e1 r5 gs2 where l5: "r4 = e1 @ r5"
    and f3: "is_field DigitOrDot e1" and g2: "gs1 = e1 # gs2"
    and m5: "match_atoms [Lit '' train_time:'', Group Digit,
               Lit ''ms step_avg:'', Group DigitOrDot, Lit ''ms''] r5 = Some gs2"
    by (metis not_in_cls(2))
  from lit_SomeD[OF m5] obtain r6 where l6: "r5 = '' train_time:'' @ r6"
    and m6: "match_atoms [Group Digit, Lit ''ms step_avg:'', Group DigitOrDot, Lit ''ms''] r6
               = Some gs2"
    by blast
  from group_SomeD[OF _ m6] obtain d3 r7 gs3 where l7: "r6 = d3 @ r7"
    and f4: "is_field Digit d3" and g3: "gs2 = d3 # gs3"
    and m7: "match_atoms [Lit ''ms step_avg:'', Group DigitOrDot, Lit ''ms''] r7 = Some gs3"
    by (metis not_in_cls(3))
  from lit_SomeD[OF m7] obtain r8 where l8: "r7 = ''ms step_avg:'' @ r8"
    and m8: "match_atoms [Group DigitOrDot, Lit ''ms''] r8 = Some gs3"
    by blast
  from group_SomeD[OF _ m8] obtain e2 r9 gs4 where l9: "r8 = e2 @ r9"
    and f5: "is_field DigitOrDot e2" and g4: "gs3 = e2 # gs4"
    and m9: "match_atoms [Lit ''ms''] r9 = Some gs4"
    by (metis not_in_cls(3))
  from lit_SomeD[OF m9] obtain rest where l10: "r9 = ''ms'' @ rest" and g5: "gs4 = []"
    by auto
  have "fields_ok d1 d2 e1 d3 e2"
    using f1 f2 f3 f4 f5 by (simp add: fields_ok_def)
  moreover have "line = format_line d1 d2 e1 d3 e2 @ rest"
    by (simp add: format_line_def l0 l1 l2 l3 l4 l5 l6 l7 l8 l9 l10)
  moreover have "gs = [d1, e1, d3, e2]"
    by (simp add: g1 g2 g3 g4 g5)
  ultimately show ?thesis by blast
qed

lemma re_match_format:
  "fields_ok d1 d2 f1 d3 f2 \<Longrightarrow> re_match (format_line d1 d2 f1 d3 f2 @ rest) = Some (d1, f1, d3, f2)"
  by (simp add: re_match_def match_pattern_format)

text \<open>The pattern always captures four groups: \<open>re_match\<close> loses no match.\<close>

lemma re_match_None:
  "(re_match line = None) = (match_atoms pattern line = None)"
proof (cases "match_atoms pattern line")
  case None
  then show ?thesis by (simp add: re_match_def)
next
  case (Some gs)
  from match_pattern_SomeD[OF Some] obtain d1 f1 d3 f2 where "gs = [d1, f1, d3, f2]"
    by blast
  with Some show ?thesis by (simp add: re_match_def)
qed

lemma re_match_SomeD:
  assumes "re_match line = Some (g1, g2, g3, g4)"
  shows "\<exists>d2 rest. fields_ok g1 d2 g2 g3 g4 \<and> line = format_line g1 d2 g2 g3 g4 @ rest"
proof -
  from assms obtain gs where m: "match_atoms pattern line = Some gs"
    by (cases "match_atoms pattern line") (auto simp: re_match_def)
  from match_pattern_SomeD[OF m] obtain d1 d2 f1 d3 f2 rest where
    ok: "fields_ok d1 d2 f1 d3 f2" and l: "line = format_line d1 d2 f1 d3 f2 @ rest"
    and gs: "gs = [d1, f1, d3, f2]"
    by blast
  from assms m gs have "g1 = d1" "g2 = f1" "g3 = d3" "g4 = f2"
    by (simp_all add: re_match_def)
  with ok l show ?thesis by blast
qed

section \<open>Conversions of the captured fields\<close>

lemma dot_not_digit [simp]: "\<not> is_digit CHR ''.''"
  by (simp add: is_digit_def)

lemma count_dots_digits: "list_all is_digit s \<Longrightarrow> count_list s CHR ''.'' = 0"
  by (induction s) auto

lemma digits_iff_no_dots:
  "list_all (in_cls DigitOrDot) s \<Longrightarrow> list_all is_digit s = (count_list s CHR ''.'' = 0)"
  by (induction s) auto

lemma list_ex_digits: "list_all is_digit s \<Longrightarrow> list_ex is_digit s = (s \<noteq> [])"
  by (cases s) auto

lemma py_int_field:
  assumes "is_field Digit s"
  shows "py_int R s = (if int_digits_ok R s then Inr (digits_val s) else Inl ValueError)"
proof -
  from assms have "s \<noteq> []" "list_all is_digit s"
    by (simp_all add: is_field_def list_all_iff)
  then show ?thesis
    by (auto simp: py_int_def int_digits_ok_def)
qed

lemma py_float_field:
  assumes "is_field DigitOrDot s"
  shows "py_float R s =
     (if float_literal s then Inr (float_of_rat R (decimal_value s)) else Inl ValueError)"
proof (cases "dropWhile is_digit s")
  case Nil
  then have tw: "takeWhile is_digit s = s"
    by (metis append_Nil2 takeWhile_dropWhile_id)
  then have all: "list_all is_digit s"
    by (metis list_all_iff set_takeWhileD)
  from assms have "s \<noteq> []" by (simp add: is_field_def)
  with all have "float_literal s"
    by (simp add: float_literal_def count_dots_digits list_ex_digits)
  then show ?thesis
    using \<open>s \<noteq> []\<close> by (simp add: py_float_def decimal_value_def Nil tw)
next
  case (Cons c fp)
  define ip where "ip = takeWhile is_digit s"
  have "takeWhile is_digit s @ dropWhile is_digit s = s"
    by simp
  then have s: "s = ip @ c # fp"
    by (simp only: Cons ip_def)
  have "\<not> is_digit c"
    using Cons by (metis hd_dropWhile list.sel(1) list.distinct(1))
  moreover from assms have "list_all (in_cls DigitOrDot) s"
    by (simp add: is_field_def)
  then have "in_cls DigitOrDot c" and fpc: "list_all (in_cls DigitOrDot) fp"
    by (simp_all add: s)
  ultimately have c: "c = CHR ''.''" by simp
  have ip: "list_all is_digit ip"
    unfolding ip_def by (auto simp: list_all_iff dest: set_takeWhileD)
  have cnt: "count_list s CHR ''.'' = Suc (count_list fp CHR ''.'')"
    by (simp add: s c count_dots_digits[OF ip])
  have ex: "list_ex is_digit s = (ip \<noteq> [] \<or> list_ex is_digit fp)"
    by (simp add: s c list_ex_digits[OF ip])
  have "float_literal s = (list_all is_digit fp \<and> ip @ fp \<noteq> [])"
    using digits_iff_no_dots[OF fpc] list_ex_digits[of fp]
    by (auto simp: float_literal_def cnt ex)
  then show ?thesis
    by (simp add: py_float_def decimal_value_def Cons c ip_def[symmetric])
qed

lemma digits_val_snoc: "digits_val (s @ [c]) = 10 * digits_val s + digit_val c"
  by (simp add: digits_val_def)

lemma digits_val_zeros: "digits_val (s @ replicate n (CHR ''0'')) = digits_val s * 10 ^ n"
proof (induction n)
  case 0
  then show ?case by simp
next
  case (Suc n)
  have "s @ replicate (Suc n) (CHR ''0'') = (s @ replicate n (CHR ''0'')) @ [CHR ''0'']"
    by (simp add: replicate_append_same)
  then show ?case
    by (simp only: digits_val_snoc Suc) (simp add: digit_val_def)
qed

section \<open>The parse loop\<close>

lemma re_match_fields:
  assumes "re_match line = Some (g1, g2, g3, g4)"
  shows "is_field Digit g1" "is_field DigitOrDot g2" "is_field Digit g3" "is_field DigitOrDot g4"
  using re_match_SomeD[OF assms] by (auto simp: fields_ok_def)

lemma parse_lines_match:
  assumes "re_match line = Some (g1, g2, g3, g4)"
  shows "parse_lines R (line # rest) (s, l, t) =
     (if int_digits_ok R g1 \<and> float_literal g2 \<and> float_literal g4
      then if float_fits R (digits_val g1)
           then parse_lines R rest
                  (s @ [fst (entry R (g1, g2, g3, g4))],
                   l @ [fst (snd (entry R (g1, g2, g3, g4)))],
                   t @ [snd (snd (entry R (g1, g2, g3, g4)))])
           else Inl OverflowError
      else Inl ValueError)"
  using re_match_fields[OF assms]
  by (simp add: assms py_int_field py_float_field float_mul_int_def entry_def)

lemma parse_lines_no_match:
  "re_match line = None \<Longrightarrow> parse_lines R (line # rest) (s, l, t) = parse_lines R rest (s, l, t)"
  by simp

text \<open>From here on the loop is unfolded through the two lemmas above only.\<close>

declare parse_lines.simps(2) [simp del]

lemma parse_lines_filter:
  "parse_lines R ls acc = parse_lines R (filter line_matches ls) acc"
proof (induction ls arbitrary: acc)
  case Nil
  then show ?case by simp
next
  case (Cons line ls)
  obtain s l t where acc: "acc = (s, l, t)" by (cases acc)
  show ?case
  proof (cases "re_match line")
    case None
    then show ?thesis using Cons.IH by (simp add: acc line_matches_def parse_lines_no_match)
  next
    case (Some g)
    obtain g1 g2 g3 g4 where g: "g = (g1, g2, g3, g4)" by (cases g)
    have m: "re_match line = Some (g1, g2, g3, g4)" using Some g by simp
    have "line_matches line" using Some by (simp add: line_matches_def)
    then show ?thesis
      using Cons.IH by (simp only: acc filter.simps if_True parse_lines_match[OF m])
  qed
qed

lemma parse_lines_ok:
  assumes "list_all (numeric_ok R) (List.map_filter re_match ls)"
  shows "parse_lines R ls (s, l, t) =
     Inr (s @ map fst (map (entry R) (List.map_filter re_match ls)),
          l @ map (fst \<circ> snd) (map (entry R) (List.map_filter re_match ls)),
          t @ map (snd \<circ> snd) (map (entry R) (List.map_filter re_match ls)))"
  using assms
proof (induction ls arbitrary: s l t)
  case Nil
  then show ?case by (simp add: List.map_filter_simps)
next
  case (Cons line ls)
  show ?case
  proof (cases "re_match line")
    case None
    then show ?thesis using Cons by (simp add: List.map_filter_simps parse_lines_no_match)
  next
    case (Some g)
    obtain g1 g2 g3 g4 where g: "g = (g1, g2, g3, g4)" by (cases g)
    have m: "re_match line = Some (g1, g2, g3, g4)" using Some g by simp
    have mf: "List.map_filter re_match (line # ls) = (g1, g2, g3, g4) # List.map_filter re_match ls"
      by (simp add: List.map_filter_simps m)
    have ok: "numeric_ok R (g1, g2, g3, g4)"
      and rest: "list_all (numeric_ok R) (List.map_filter re_match ls)"
      using Cons.prems unfolding mf by simp_all
    from ok have c: "int_digits_ok R g1" "float_literal g2" "float_literal g4"
      "float_fits R (digits_val g1)"
      by (simp_all add: numeric_ok_def)
    show ?thesis
      by (subst parse_lines_match[OF m]) (simp add: c Cons.IH[OF rest] m List.map_filter_simps)
  qed
qed


lemma length_map_filter:
  "length (List.map_filter re_match ls) = length (filter line_matches ls)"
proof -
  have "line_matches = (\<lambda>x. re_match x \<noteq> None)"
    by (rule ext) (simp only: line_matches_def)
  then show ?thesis
    by (simp only: List.map_filter_def length_map)
qed

lemma map_filter_matchD:
  assumes "g \<in> set (List.map_filter re_match ls)"
  shows "\<exists>line. re_match line = Some g"
  using assms by (auto simp: List.map_filter_def)

lemma numeric_ok_conversions:
  assumes "re_match line = Some (g1, g2, g3, g4)" "numeric_ok R (g1, g2, g3, g4)"
  shows "py_int R g1 = Inr (fst (entry R (g1, g2, g3, g4)))"
    and "py_float R g2 = Inr (fst (snd (entry R (g1, g2, g3, g4))))"
    and "py_float R g4 = Inr (float_of_rat R (decimal_value g4))"
    and "snd (snd (entry R (g1, g2, g3, g4))) =
         float_mul R (float_of_rat R (decimal_value g4))
           (float_of_rat R (of_int (fst (entry R (g1, g2, g3, g4)))))"
  using re_match_fields[OF assms(1)] assms(2)
  by (simp_all add: numeric_ok_def py_int_field py_float_field entry_def)

text \<open>The two sample lines with an oversized step match, and the loop raises on them.\<close>

lemma overflow_line_raises:
  "re_match overflow_line = Some (CHR ''1'' # replicate 309 (CHR ''0''), ''1.5'', ''1'', ''2.0'') \<and>
   parse_lines exact_runtime [overflow_line] ([], [], []) = Inl OverflowError"
proof -
  let ?d = "CHR ''1'' # replicate 309 (CHR ''0'')"
  have ok: "fields_ok ?d ''1'' ''1.5'' ''1'' ''2.0''"
    by (simp add: fields_ok_def is_field_def is_digit_def list_all_iff)
  have l: "overflow_line = format_line ?d ''1'' ''1.5'' ''1'' ''2.0'' @ []"
    by (simp add: overflow_line_def format_line_def)
  have m: "re_match overflow_line = Some (?d, ''1.5'', ''1'', ''2.0'')"
    unfolding l by (rule re_match_format[OF ok])
  have v: "digits_val ?d = 10 ^ 309"
    using digits_val_zeros[of "''1''" 309] by (simp add: digits_val_def digit_val_def)
  have c: "int_digits_ok exact_runtime ?d" "float_literal ''1.5''" "float_literal ''2.0''"
    by (simp_all add: int_digits_ok_def exact_runtime_def float_literal_def is_digit_def)
  have nf: "\<not> float_fits exact_runtime (digits_val ?d)"
    unfolding v by (simp add: exact_runtime_def)
  show ?thesis
    using m by (simp add: parse_lines_match[OF m] c nf)
qed

lemma long_step_line_raises:
  "re_match long_step_line = Some (replicate 4301 (CHR ''7''), ''1.5'', ''1'', ''2.0'') \<and>
   py_int exact_runtime (replicate 4301 (CHR ''7'')) = Inl ValueError \<and>
   parse_lines exact_runtime [long_step_line] ([], [], []) = Inl ValueError"
proof -
  let ?d = "replicate 4301 (CHR ''7'')"
  have f: "is_field Digit ?d"
    by (simp add: is_field_def is_digit_def list_all_iff)
  then have ok: "fields_ok ?d ''1'' ''1.5'' ''1'' ''2.0''"
    by (simp add: fields_ok_def is_field_def is_digit_def)
  have l: "long_step_line = format_line ?d ''1'' ''1.5'' ''1'' ''2.0'' @ []"
    by (simp add: long_step_line_def format_line_def)
  have m: "re_match long_step_line = Some (?d, ''1.5'', ''1'', ''2.0'')"
    unfolding l by (rule re_match_format[OF ok])
  have c: "\<not> int_digits_ok exact_runtime ?d"
    by (simp add: int_digits_ok_def exact_runtime_def)
  show ?thesis
    using m by (simp add: parse_lines_match[OF m] py_int_field[OF f] c)
qed

section \<open>Properties of \<^verbatim>\<open>parse_log_file\<close>\<close>

text \<open>
  Claim C1, amended. Take a readable file whose text has \<open>K\<close> lines matching the
  pattern, and let the captured fields of each of them convert (\<open>numeric_ok\<close>). Then
  \<^verbatim>\<open>parse_log_file\<close> returns three sequences of length \<open>K\<close> each, and for every index
  \<open>i\<close> the step, the loss and the average step time are the values of groups 1, 2 and
  4 of the \<open>i\<close>-th matching line, and the cumulative time is the product of the average
  step time and the step; group 3, the \<^verbatim>\<open>train_time\<close> field, plays no part.
\<close>

theorem parse_log_file_series:
  assumes fl: "logs w filename = Some text"
    and ms: "ms = List.map_filter re_match (file_lines (universal_newlines text))"
    and K: "K = length (filter line_matches (file_lines (universal_newlines text)))"
    and ok: "list_all (numeric_ok R) ms"
  shows "\<exists>steps losses ts.
     parse_log_file R w filename = Inr (steps, losses, ts) \<and>
     length steps = K \<and> length losses = K \<and> length ts = K \<and>
     (\<forall>i<K. \<exists>g1 g2 g3 g4 avg.
        ms ! i = (g1, g2, g3, g4) \<and>
        py_int R g1 = Inr (steps ! i) \<and>
        py_float R g2 = Inr (losses ! i) \<and>
        py_float R g4 = Inr avg \<and>
        ts ! i = float_mul R avg (float_of_rat R (of_int (steps ! i))))"
proof -
  let ?es = "map (entry R) ms"
  have len: "length ms = K"
    by (simp add: ms K length_map_filter)
  have res: "parse_log_file R w filename =
      Inr (map fst ?es, map (fst \<circ> snd) ?es, map (snd \<circ> snd) ?es)"
    using parse_lines_ok[of R "file_lines (universal_newlines text)" "[]" "[]" "[]"] ok
    by (simp add: parse_log_file_def fl ms)
  have each: "\<exists>g1 g2 g3 g4 avg.
        ms ! i = (g1, g2, g3, g4) \<and>
        py_int R g1 = Inr (map fst ?es ! i) \<and>
        py_float R g2 = Inr (map (fst \<circ> snd) ?es ! i) \<and>
        py_float R g4 = Inr avg \<and>
        map (snd \<circ> snd) ?es ! i = float_mul R avg (float_of_rat R (of_int (map fst ?es ! i)))"
    if i: "i < K" for i
  proof -
    obtain g1 g2 g3 g4 where g: "ms ! i = (g1, g2, g3, g4)"
      by (cases "ms ! i")
    have mem: "(g1, g2, g3, g4) \<in> set ms"
      using i len g by (metis nth_mem)
    then obtain line where m: "re_match line = Some (g1, g2, g3, g4)"
      using map_filter_matchD ms by blast
    have nok: "numeric_ok R (g1, g2, g3, g4)"
      using ok mem by (simp add: list_all_iff)
    show ?thesis
      using numeric_ok_conversions[OF m nok] i len g by auto
  qed
  show ?thesis
    using res len each by (intro exI[of _ "map fst ?es"] exI[of _ "map (fst \<circ> snd) ?es"]
        exI[of _ "map (snd \<circ> snd) ?es"]) simp
qed

text \<open>
  The theorem at a log of four lines, two of them matching. The second has the
  \<^verbatim>\<open>train_time\<close> field 10000 and the cumulative time 50.5 times 200.
\<close>

theorem parse_log_file_series_witness:
  "logs sample_world ''a.txt'' = Some sample_log \<and>
   list_all (numeric_ok exact_runtime)
     (List.map_filter re_match (file_lines (universal_newlines sample_log))) \<and>
   length (filter line_matches (file_lines (universal_newlines sample_log))) = 2 \<and>
   (\<exists>steps losses ts.
      parse_log_file exact_runtime sample_world ''a.txt'' = Inr (steps, losses, ts) \<and>
      length steps = 2 \<and> length losses = 2 \<and> length ts = 2) \<and>
   parse_log_file exact_runtime sample_world ''a.txt'' =
     Inr ([100, 200], [69 / 20, 33 / 10], [5000, 10100])"
proof -
  have v: "parse_log_file exact_runtime sample_world ''a.txt'' =
     Inr ([100, 200], [69 / 20, 33 / 10], [5000, 10100])"
    by code_simp
  have h1: "logs sample_world ''a.txt'' = Some sample_log"
    by (simp add: sample_world_def)
  have h2: "list_all (numeric_ok exact_runtime)
     (List.map_filter re_match (file_lines (universal_newlines sample_log)))"
    by code_simp
  have h3: "2 = length (filter line_matches (file_lines (universal_newlines sample_log)))"
    by code_simp
  from parse_log_file_series[OF h1 refl h3 h2] have "\<exists>steps losses ts.
      parse_log_file exact_runtime sample_world ''a.txt'' = Inr (steps, losses, ts) \<and>
      length steps = 2 \<and> length losses = 2 \<and> length ts = 2"
    by blast
  with h1 h2 h3 v show ?thesis
    by simp
qed

text \<open>
  As first stated, C1 promises three sequences for every file. A file whose one
  matching line carries the loss \<^verbatim>\<open>1.2.3\<close> has \<open>K = 1\<close>, and the call raises
  \<^verbatim>\<open>ValueError\<close> instead of returning. On a matching line whose step is 1 followed
  by 309 zeros the loop raises \<^verbatim>\<open>OverflowError\<close>, in the product.
\<close>

theorem parse_log_file_series_counterexample:
  "logs sample_world ''bad.txt'' = Some malformed_log \<and>
   length (filter line_matches (file_lines (universal_newlines malformed_log))) = 1 \<and>
   parse_log_file exact_runtime sample_world ''bad.txt'' = Inl ValueError \<and>
   re_match overflow_line =
     Some (CHR ''1'' # replicate 309 (CHR ''0''), ''1.5'', ''1'', ''2.0'') \<and>
   parse_lines exact_runtime [overflow_line] ([], [], []) = Inl OverflowError"
proof -
  have "logs sample_world ''bad.txt'' = Some malformed_log \<and>
   length (filter line_matches (file_lines (universal_newlines malformed_log))) = 1 \<and>
   parse_log_file exact_runtime sample_world ''bad.txt'' = Inl ValueError"
    by code_simp
  with overflow_line_raises show ?thesis
    by (simp only: simp_thms)
qed

text \<open>
  Claim C2, amended. On every line that matches the pattern, groups 1 and 3 are
  non-empty strings of digits and groups 2 and 4 are non-empty strings of digits and
  dots. \<^verbatim>\<open>int\<close> of the step succeeds unless the step is longer than the digit limit of
  the interpreter; \<^verbatim>\<open>float\<close> of a captured field succeeds exactly when the field has at
  most one dot and at least one digit. On a matching line where one of the three
  conversions fails the parser raises \<^verbatim>\<open>ValueError\<close>; where they succeed and the step is
  outside the float range it raises \<^verbatim>\<open>OverflowError\<close>; otherwise it appends the entry.
\<close>

theorem matching_line_conversions:
  assumes "re_match line = Some (g1, g2, g3, g4)"
  shows "is_field Digit g1 \<and> is_field DigitOrDot g2 \<and>
         is_field Digit g3 \<and> is_field DigitOrDot g4 \<and>
         py_int R g1 = (if int_digits_ok R g1 then Inr (digits_val g1) else Inl ValueError) \<and>
         py_float R g2 =
           (if float_literal g2 then Inr (float_of_rat R (decimal_value g2))
            else Inl ValueError) \<and>
         py_float R g4 =
           (if float_literal g4 then Inr (float_of_rat R (decimal_value g4))
            else Inl ValueError) \<and>
         parse_lines R (line # rest) (s, l, t) =
           (if int_digits_ok R g1 \<and> float_literal g2 \<and> float_literal g4
            then if float_fits R (digits_val g1)
                 then parse_lines R rest
                        (s @ [fst (entry R (g1, g2, g3, g4))],
                         l @ [fst (snd (entry R (g1, g2, g3, g4)))],
                         t @ [snd (snd (entry R (g1, g2, g3, g4)))])
                 else Inl OverflowError
            else Inl ValueError)"
  using re_match_fields[OF assms]
  by (simp add: py_int_field py_float_field parse_lines_match[OF assms] del: parse_lines.simps)

text \<open>The theorem at the example line of the specification.\<close>

theorem matching_line_conversions_witness:
  "re_match sample_line = Some (''100'', ''3.45'', ''5000'', ''50.0'') \<and>
   py_int exact_runtime ''100'' = Inr 100 \<and>
   py_float exact_runtime ''3.45'' = Inr (69 / 20) \<and>
   py_float exact_runtime ''50.0'' = Inr 50 \<and>
   parse_lines exact_runtime [sample_line] ([], [], []) = Inr ([100], [69 / 20], [5000])"
proof -
  have h: "re_match sample_line = Some (''100'', ''3.45'', ''5000'', ''50.0'')"
    by code_simp
  have v: "int_digits_ok exact_runtime ''100''" "float_literal ''3.45''" "float_literal ''50.0''"
    "digits_val ''100'' = 100" "decimal_value ''3.45'' = 69 / 20" "decimal_value ''50.0'' = 50"
    "float_fits exact_runtime 100"
    "entry exact_runtime (''100'', ''3.45'', ''5000'', ''50.0'') = (100, 69 / 20, 5000)"
    by code_simp+
  have r: "float_of_rat exact_runtime (69 / 20) = 69 / 20" "float_of_rat exact_runtime 50 = 50"
    by (simp_all add: exact_runtime_def)
  from matching_line_conversions[OF h, of exact_runtime "[]" "[]" "[]" "[]"] h show ?thesis
    by (simp only: v r if_True simp_thms fst_conv snd_conv append_Nil parse_lines.simps(1))
qed

text \<open>
  As first stated, C2 says that the captured texts of a matching line always parse.
  The class \<^verbatim>\<open>[\d.]+\<close> also takes \<^verbatim>\<open>1.2.3\<close>: the line matches, and \<^verbatim>\<open>float\<close> refuses the
  captured loss, so that the parser raises. A step of 4301 digits is made of digits
  only, and \<^verbatim>\<open>int\<close> refuses it under the default digit limit.
\<close>

theorem matching_line_conversions_counterexample:
  "re_match malformed_line = Some (''1'', ''1.2.3'', ''5'', ''1.0'') \<and>
   py_float exact_runtime ''1.2.3'' = Inl ValueError \<and>
   parse_lines exact_runtime [malformed_line] ([], [], []) = Inl ValueError \<and>
   re_match long_step_line = Some (replicate 4301 (CHR ''7''), ''1.5'', ''1'', ''2.0'') \<and>
   py_int exact_runtime (replicate 4301 (CHR ''7'')) = Inl ValueError \<and>
   parse_lines exact_runtime [long_step_line] ([], [], []) = Inl ValueError"
proof -
  have "re_match malformed_line = Some (''1'', ''1.2.3'', ''5'', ''1.0'') \<and>
   py_float exact_runtime ''1.2.3'' = Inl ValueError \<and>
   parse_lines exact_runtime [malformed_line] ([], [], []) = Inl ValueError"
    by code_simp
  with long_step_line_raises show ?thesis
    by (simp only: simp_thms)
qed

text \<open>
  Claim C3. The result of \<^verbatim>\<open>parse_log_file\<close> on a readable file is the result of the
  loop on its matching lines alone: a line that does not match adds no entry and
  raises no error, wherever it stands. For a file with no matching line, the empty
  file among them, the result is three empty sequences.
\<close>

theorem nonmatching_lines_skipped:
  assumes "logs w filename = Some text"
  shows "parse_log_file R w filename =
           parse_lines R (filter line_matches (file_lines (universal_newlines text)))
             ([], [], []) \<and>
         (filter line_matches (file_lines (universal_newlines text)) = [] \<longrightarrow>
            parse_log_file R w filename = Inr ([], [], []))"
proof -
  have "parse_log_file R w filename =
      parse_lines R (filter line_matches (file_lines (universal_newlines text))) ([], [], [])"
    using parse_lines_filter[of R "file_lines (universal_newlines text)"]
    by (simp add: parse_log_file_def assms)
  then show ?thesis by simp
qed

text \<open>
  The theorem at a file of a comment, a blank line and a line with fields missing,
  and at the empty file.
\<close>

theorem nonmatching_lines_skipped_witness:
  "logs sample_world ''notes.txt'' = Some ''# no records here\<newline>\<newline>step:1 val_loss:2\<newline>'' \<and>
   filter line_matches
     (file_lines (universal_newlines ''# no records here\<newline>\<newline>step:1 val_loss:2\<newline>'')) = [] \<and>
   parse_log_file exact_runtime sample_world ''notes.txt'' = Inr ([], [], []) \<and>
   logs sample_world ''empty.txt'' = Some [] \<and>
   parse_log_file exact_runtime sample_world ''empty.txt'' = Inr ([], [], [])"
proof -
  have h: "logs sample_world ''notes.txt'' = Some ''# no records here\<newline>\<newline>step:1 val_loss:2\<newline>''"
    by (simp add: sample_world_def)
  have e: "filter line_matches
     (file_lines (universal_newlines ''# no records here\<newline>\<newline>step:1 val_loss:2\<newline>'')) = []"
    by code_simp
  have h': "logs sample_world ''empty.txt'' = Some []"
    by (simp add: sample_world_def)
  have e': "filter line_matches (file_lines (universal_newlines [])) = []"
    by simp
  from nonmatching_lines_skipped[OF h, of exact_runtime] e
  have a: "parse_log_file exact_runtime sample_world ''notes.txt'' = Inr ([], [], [])"
    by blast
  from nonmatching_lines_skipped[OF h', of exact_runtime] e'
  have b: "parse_log_file exact_runtime sample_world ''empty.txt'' = Inr ([], [], [])"
    by blast
  show ?thesis
    by (intro conjI h e a h' b)
qed

text \<open>
  Claim C9. A matching line begins with its own fields written out in the line
  format: step, total, loss, train time and average step time. Formatting a line
  from these five field texts and matching it again captures the same four groups,
  and the parser does with the formatted line exactly what it does with the original.
\<close>

theorem regex_fields_round_trip:
  assumes "re_match line = Some (g1, g2, g3, g4)"
  shows "\<exists>tot rest.
           line = format_line g1 tot g2 g3 g4 @ rest \<and> is_field Digit tot \<and>
           re_match (format_line g1 tot g2 g3 g4) = Some (g1, g2, g3, g4) \<and>
           parse_lines R [format_line g1 tot g2 g3 g4] acc = parse_lines R [line] acc"
proof -
  from re_match_SomeD[OF assms] obtain tot rest where
    ok: "fields_ok g1 tot g2 g3 g4" and l: "line = format_line g1 tot g2 g3 g4 @ rest"
    by blast
  have m: "re_match (format_line g1 tot g2 g3 g4) = Some (g1, g2, g3, g4)"
    using re_match_format[OF ok, of "[]"] by simp
  obtain s l t where acc: "acc = (s, l, t)" by (cases acc)
  have "parse_lines R [format_line g1 tot g2 g3 g4] acc = parse_lines R [line] acc"
    unfolding acc by (simp only: parse_lines_match[OF m] parse_lines_match[OF assms])
  with ok l m show ?thesis
    by (auto simp: fields_ok_def)
qed

text \<open>The theorem at the example line of the specification.\<close>

theorem regex_fields_round_trip_witness:
  "re_match sample_line = Some (''100'', ''3.45'', ''5000'', ''50.0'') \<and>
   (\<exists>tot rest.
      sample_line = format_line ''100'' tot ''3.45'' ''5000'' ''50.0'' @ rest \<and>
      is_field Digit tot \<and>
      re_match (format_line ''100'' tot ''3.45'' ''5000'' ''50.0'') =
        Some (''100'', ''3.45'', ''5000'', ''50.0''))"
proof -
  have h: "re_match sample_line = Some (''100'', ''3.45'', ''5000'', ''50.0'')"
    by code_simp
  from regex_fields_round_trip[OF h] h show ?thesis
    by blast
qed

text \<open>
  Claim C10, amended. The pattern is anchored at the start of the line only. When a
  line matches, the line followed by any further characters matches with the same
  captured fields, and the parser treats it exactly as it treats the line without
  them: it appends the entry whenever the captured fields convert. A line that does
  not begin with \<^verbatim>\<open>step:\<close>, for instance one with a leading blank, never matches and
  contributes nothing.
\<close>

theorem pattern_anchored_at_start_only:
  "(re_match line = Some g \<longrightarrow>
      re_match (line @ extra) = Some g \<and>
      parse_lines R ((line @ extra) # rest) acc = parse_lines R (line # rest) acc \<and>
      (numeric_ok R g \<longrightarrow>
         parse_lines R ((line @ extra) # rest) (s, l, t) =
           parse_lines R rest
             (s @ [fst (entry R g)], l @ [fst (snd (entry R g))], t @ [snd (snd (entry R g))]))) \<and>
   (\<not> prefix ''step:'' line \<longrightarrow>
      re_match line = None \<and>
      parse_lines R (line # rest) acc = parse_lines R rest acc)"
proof (intro conjI impI)
  assume m: "re_match line = Some g"
  obtain g1 g2 g3 g4 where g: "g = (g1, g2, g3, g4)" by (cases g)
  from re_match_SomeD[OF m[unfolded g]] obtain tot r where
    ok: "fields_ok g1 tot g2 g3 g4" and l: "line = format_line g1 tot g2 g3 g4 @ r"
    by blast
  have "line @ extra = format_line g1 tot g2 g3 g4 @ (r @ extra)"
    by (simp add: l)
  then show m': "re_match (line @ extra) = Some g"
    using re_match_format[OF ok] g by simp
  obtain s' l' t' where acc: "acc = (s', l', t')" by (cases acc)
  show "parse_lines R ((line @ extra) # rest) acc = parse_lines R (line # rest) acc"
    unfolding acc
    by (simp only: parse_lines_match[OF m'[unfolded g]] parse_lines_match[OF m[unfolded g]])
  assume "numeric_ok R g"
  then show "parse_lines R ((line @ extra) # rest) (s, l, t) =
           parse_lines R rest
             (s @ [fst (entry R g)], l @ [fst (snd (entry R g))], t @ [snd (snd (entry R g))])"
    unfolding g by (simp add: parse_lines_match[OF m'[unfolded g]] numeric_ok_def)
next
  assume np: "\<not> prefix ''step:'' line"
  show n: "re_match line = None"
  proof (cases "re_match line")
    case None
    then show ?thesis .
  next
    case (Some g)
    obtain g1 g2 g3 g4 where g: "g = (g1, g2, g3, g4)" by (cases g)
    from re_match_SomeD[OF Some[unfolded g]] obtain tot r where
      "line = format_line g1 tot g2 g3 g4 @ r"
      by blast
    then have "prefix ''step:'' line"
      by (simp add: format_line_def)
    with np show ?thesis by simp
  qed
  obtain s' l' t' where acc: "acc = (s', l', t')" by (cases acc)
  show "parse_lines R (line # rest) acc = parse_lines R rest acc"
    unfolding acc using n by (simp add: parse_lines_no_match)
qed

text \<open>
  The theorem at the example line with a trailing remark, and at the example line
  with a leading blank.
\<close>

theorem pattern_anchored_at_start_only_witness:
  "re_match sample_line = Some (''100'', ''3.45'', ''5000'', ''50.0'') \<and>
   numeric_ok exact_runtime (''100'', ''3.45'', ''5000'', ''50.0'') \<and>
   re_match (sample_line @ '' # checkpoint saved'') = Some (''100'', ''3.45'', ''5000'', ''50.0'') \<and>
   parse_lines exact_runtime [sample_line @ '' # checkpoint saved''] ([], [], []) =
     Inr ([100], [69 / 20], [5000]) \<and>
   \<not> prefix ''step:'' ('' '' @ sample_line) \<and>
   re_match ('' '' @ sample_line) = None \<and>
   parse_lines exact_runtime [('' '' @ sample_line)] ([], [], []) = Inr ([], [], [])"
proof -
  have h: "re_match sample_line = Some (''100'', ''3.45'', ''5000'', ''50.0'')"
    by code_simp
  have k: "numeric_ok exact_runtime (''100'', ''3.45'', ''5000'', ''50.0'')"
    by code_simp
  have e: "entry exact_runtime (''100'', ''3.45'', ''5000'', ''50.0'') = (100, 69 / 20, 5000)"
    by code_simp
  have p: "\<not> prefix ''step:'' ('' '' @ sample_line)"
    by simp
  note T1 = pattern_anchored_at_start_only[of sample_line "(''100'', ''3.45'', ''5000'', ''50.0'')"
      "'' # checkpoint saved''" exact_runtime "[]" "([], [], [])" "[]" "[]" "[]"]
  from T1 h have a: "re_match (sample_line @ '' # checkpoint saved'') =
      Some (''100'', ''3.45'', ''5000'', ''50.0'')"
    by blast
  from T1 h k have "parse_lines exact_runtime [sample_line @ '' # checkpoint saved''] ([], [], []) =
      parse_lines exact_runtime []
        ([] @ [fst (entry exact_runtime (''100'', ''3.45'', ''5000'', ''50.0''))],
         [] @ [fst (snd (entry exact_runtime (''100'', ''3.45'', ''5000'', ''50.0'')))],
         [] @ [snd (snd (entry exact_runtime (''100'', ''3.45'', ''5000'', ''50.0'')))])"
    by blast
  then have b: "parse_lines exact_runtime [sample_line @ '' # checkpoint saved''] ([], [], []) =
      Inr ([100], [69 / 20], [5000])"
    by (simp add: e)
  note T2 = pattern_anchored_at_start_only[of "'' '' @ sample_line" "([], [], [], [])" "[]"
      exact_runtime "[]" "([], [], [])" "[]" "[]" "[]"]
  from T2 p have c: "re_match ('' '' @ sample_line) = None"
    by blast
  from T2 p have "parse_lines exact_runtime ['' '' @ sample_line] ([], [], []) =
      parse_lines exact_runtime [] ([], [], [])"
    by blast
  then have d: "parse_lines exact_runtime ['' '' @ sample_line] ([], [], []) = Inr ([], [], [])"
    by simp
  show ?thesis
    by (intro conjI h k a b p c d)
qed

text \<open>
  As first stated, C10 says that a line made of the pattern and trailing characters
  always has an entry appended. With the loss \<^verbatim>\<open>1.2.3\<close> the line matches, trailing
  remark or not, and the parser raises \<^verbatim>\<open>ValueError\<close> instead.
\<close>

theorem pattern_anchored_at_start_only_counterexample:
  "re_match (malformed_line @ '' # checkpoint saved'') = Some (''1'', ''1.2.3'', ''5'', ''1.0'') \<and>
   parse_lines exact_runtime [malformed_line @ '' # checkpoint saved''] ([], [], []) =
     Inl ValueError"
  by code_simp

section \<open>The two passes and the call\<close>





















lemma is_line2d_steps_line [simp]: "is_line2d (steps_line R w p)"
  by (simp add: steps_line_def split: prod.splits)

lemma is_line2d_time_line [simp]: "is_line2d (time_line R w p)"
  by (simp add: time_line_def split: prod.splits)




section \<open>Properties of \<^verbatim>\<open>create_plots\<close>\<close>











end
